theory Spec2Isabelle
  imports Complex_Main
begin

section \<open>The photo stylizer of src/App.js\<close>

text \<open>
  The component \<^verbatim>\<open>App\<close> keeps a dozen state variables, and its routine \<^verbatim>\<open>draw\<close>
  paints a background and up to six scaled copies of an uploaded image on a canvas.

  JavaScript numbers are IEEE doubles. Here they are real numbers: every statement below
  is about the exact arithmetic of the formulas, and says nothing about rounding. The
  loop counter and \<^verbatim>\<open>repeats\<close> (set through \<^verbatim>\<open>parseInt\<close> only) are integers.
\<close>

subsection \<open>Constant tables\<close>

text \<open>\<^verbatim>\<open>PALETTE\<close>: the values of the six colours.\<close>

definition PALETTE :: "string list" where
  "PALETTE = [''#6BFF7A'', ''#C9B8FF'', ''#FF27B1'', ''#6A5B17'', ''#000000'', ''#FFFFFF'']"

text \<open>
  \<^verbatim>\<open>SIZES\<close>: the canvas presets. The label of a preset is read by the selector only and
  is left out; the fields \<^verbatim>\<open>w\<close> and \<^verbatim>\<open>h\<close> are \<open>size_w\<close> and \<open>size_h\<close>.
\<close>

record size_preset =
  size_w :: nat
  size_h :: nat

definition SIZES :: "size_preset list" where
  "SIZES = [\<lparr>size_w = 1200, size_h = 675\<rparr>, \<lparr>size_w = 1920, size_h = 1080\<rparr>,
            \<lparr>size_w = 1200, size_h = 1200\<rparr>, \<lparr>size_w = 1600, size_h = 900\<rparr>]"

text \<open>
  \<^verbatim>\<open>ANCHORS\<close>: the state holds the key of one of the five entries, and the direction
  selector offers two values. Both are datatypes here, with the strings the code
  compares kept as their keys.
\<close>

datatype anchor = TopLeft | TopRight | BottomLeft | BottomRight | Center

fun anchor_key :: "anchor \<Rightarrow> string" where
  "anchor_key TopLeft = ''tl''"
| "anchor_key TopRight = ''tr''"
| "anchor_key BottomLeft = ''bl''"
| "anchor_key BottomRight = ''br''"
| "anchor_key Center = ''c''"

datatype direction = GrowRight | GrowLeft

fun direction_key :: "direction \<Rightarrow> string" where
  "direction_key GrowRight = ''right''"
| "direction_key GrowLeft = ''left''"

text \<open>\<^verbatim>\<open>String.prototype.includes\<close>, for a needle of one character.\<close>

definition str_includes :: "string \<Rightarrow> char \<Rightarrow> bool" where
  "str_includes s c = (c \<in> set s)"

subsection \<open>State\<close>

text \<open>
  A decoded image, with the two properties \<^verbatim>\<open>draw\<close> reads and the opacity of its
  pixels, which \<^verbatim>\<open>drawImage\<close> reads: \<open>img_alpha\<close> at a position given as fractions of the
  width and the height, 1 where the image is opaque and 0 where it is transparent (the
  file input accepts any image type, so a PNG with transparency is an input). For an
  image with a zero dimension the quotient of the code is \<^verbatim>\<open>Infinity\<close> or \<^verbatim>\<open>NaN\<close>, which
  real numbers do not have: statements about the geometry are made for \<open>decoded\<close> images.
\<close>

record image =
  img_width :: nat
  img_height :: nat
  img_alpha :: "real \<times> real \<Rightarrow> real"

definition decoded :: "image \<Rightarrow> bool" where
  "decoded img = (0 < img_width img \<and> 0 < img_height img)"

text \<open>The state variables of \<^verbatim>\<open>App\<close>; \<^verbatim>\<open>size\<close> is \<open>canvas_size\<close>.\<close>

record app =
  bg :: string
  canvas_size :: size_preset
  direction :: direction
  repeats :: int
  gapPct :: real
  stepScale :: real
  yOffsetPct :: real
  anchor :: anchor
  padding :: real
  baseScalePct :: real
  imgURL :: "string option"
  imgObj :: "image option"
  dpiScale :: real

text \<open>
  The value the mount effect stores in \<open>dpiScale\<close>, from \<^verbatim>\<open>window.devicePixelRatio\<close>: a
  ratio of 0, like a missing one, counts as 1.
\<close>

definition device_ratio :: "real \<Rightarrow> real" where
  "device_ratio dpr = max 1 (min 2 (if dpr = 0 then 1 else dpr))"

text \<open>The initial values given to \<^verbatim>\<open>useState\<close>.\<close>

definition initial_app :: app where
  "initial_app = \<lparr>bg = ''#6BFF7A'', canvas_size = \<lparr>size_w = 1200, size_h = 675\<rparr>,
     direction = GrowRight, repeats = 3, gapPct = -18, stepScale = 90, yOffsetPct = 0,
     anchor = BottomRight, padding = 24, baseScalePct = 70, imgURL = None, imgObj = None,
     dpiScale = 1\<rparr>"

subsection \<open>The geometry of \<^verbatim>\<open>draw\<close>\<close>

definition canvas_w :: "app \<Rightarrow> real" where
  "canvas_w st = real (size_w (canvas_size st))"

definition canvas_h :: "app \<Rightarrow> real" where
  "canvas_h st = real (size_h (canvas_size st))"

definition shortest :: "app \<Rightarrow> real" where
  "shortest st = min (canvas_w st) (canvas_h st)"

definition baseTarget :: "app \<Rightarrow> real" where
  "baseTarget st = (baseScalePct st / 100) * shortest st"

definition imgRatio :: "image \<Rightarrow> real" where
  "imgRatio img = real (img_width img) / real (img_height img)"

definition drawW :: "app \<Rightarrow> image \<Rightarrow> real" where
  "drawW st img = (if imgRatio img \<ge> 1 then baseTarget st * imgRatio img else baseTarget st)"

definition drawH :: "app \<Rightarrow> image \<Rightarrow> real" where
  "drawH st img = (if imgRatio img \<ge> 1 then baseTarget st else baseTarget st / imgRatio img)"

text \<open>The three assignments to \<^verbatim>\<open>startX\<close> and \<^verbatim>\<open>startY\<close>, in the order of the code.\<close>

definition startX :: "app \<Rightarrow> image \<Rightarrow> real" where
  "startX st img =
     (let sx = padding st;
          sx = (if str_includes (anchor_key (anchor st)) CHR ''r''
                then canvas_w st - padding st - drawW st img else sx);
          sx = (if anchor_key (anchor st) = ''c''
                then (canvas_w st - drawW st img) / 2 else sx)
      in sx)"

definition startY :: "app \<Rightarrow> image \<Rightarrow> real" where
  "startY st img =
     (let sy = padding st;
          sy = (if str_includes (anchor_key (anchor st)) CHR ''b''
                then canvas_h st - padding st - drawH st img else sy);
          sy = (if anchor_key (anchor st) = ''c''
                then (canvas_h st - drawH st img) / 2 else sy)
      in sy)"

definition dir :: "app \<Rightarrow> real" where
  "dir st = (if direction_key (direction st) = ''right'' then 1 else - 1)"

definition gapPx :: "app \<Rightarrow> image \<Rightarrow> real" where
  "gapPx st img = (gapPct st / 100) * drawW st img"

definition yStepPx :: "app \<Rightarrow> image \<Rightarrow> real" where
  "yStepPx st img = (yOffsetPct st / 100) * drawH st img"

definition scaleStep :: "app \<Rightarrow> real" where
  "scaleStep st = stepScale st / 100"

definition layers :: "app \<Rightarrow> int" where
  "layers st = max 1 (min 6 (repeats st))"

text \<open>The scale \<^verbatim>\<open>s = Math.pow(scaleStep, i)\<close> of the loop body at counter \<open>i\<close>.\<close>

definition layer_scale :: "app \<Rightarrow> nat \<Rightarrow> real" where
  "layer_scale st i = scaleStep st ^ i"

text \<open>
  The body of the loop at counter \<open>i\<close>: the four numbers handed to \<^verbatim>\<open>drawImage\<close> after
  the image, that is x, y, width and height.
\<close>

definition layer :: "app \<Rightarrow> image \<Rightarrow> nat \<Rightarrow> real \<times> real \<times> real \<times> real" where
  "layer st img i =
     (let s = layer_scale st i;
          wI = drawW st img * s;
          hI = drawH st img * s;
          x = startX st img + dir st * gapPx st img * real i;
          y = startY st img + yStepPx st img * real i;
          (x, y) =
            (if anchor_key (anchor st) = ''tr'' then (x + (drawW st img - wI), y)
             else if anchor_key (anchor st) = ''bl'' then (x, y + (drawH st img - hI))
             else if anchor_key (anchor st) = ''br''
               then (x + (drawW st img - wI), y + (drawH st img - hI))
             else if anchor_key (anchor st) = ''c''
               then (x + (drawW st img - wI) / 2, y + (drawH st img - hI) / 2)
             else (x, y))
      in (x, y, wI, hI))"

definition layer_x :: "app \<Rightarrow> image \<Rightarrow> nat \<Rightarrow> real" where
  "layer_x st img i = fst (layer st img i)"

definition layer_y :: "app \<Rightarrow> image \<Rightarrow> nat \<Rightarrow> real" where
  "layer_y st img i = fst (snd (layer st img i))"

definition layer_w :: "app \<Rightarrow> image \<Rightarrow> nat \<Rightarrow> real" where
  "layer_w st img i = fst (snd (snd (layer st img i)))"

definition layer_h :: "app \<Rightarrow> image \<Rightarrow> nat \<Rightarrow> real" where
  "layer_h st img i = snd (snd (snd (layer st img i)))"

subsection \<open>The canvas\<close>

text \<open>
  A canvas is its backing store size, the scale set by \<^verbatim>\<open>setTransform\<close>, and the
  drawing calls made since its size was last assigned (assigning \<^verbatim>\<open>canvas.width\<close>
  clears it), in the order they were made.
\<close>

datatype draw_op =
  FillRect string real real real real
| DrawImage image real real real real

record surface =
  px_width :: nat
  px_height :: nat
  xform :: real
  ops :: "draw_op list"

fun is_drawImage :: "draw_op \<Rightarrow> bool" where
  "is_drawImage (DrawImage img x y w h) = True"
| "is_drawImage (FillRect c x y w h) = False"

text \<open>The call \<^verbatim>\<open>ctx.drawImage(imgObj, x, y, wI, hI)\<close>.\<close>

fun drawImage :: "image \<Rightarrow> real \<times> real \<times> real \<times> real \<Rightarrow> draw_op" where
  "drawImage img (x, y, wI, hI) = DrawImage img x y wI hI"

text \<open>
  The loop \<^verbatim>\<open>for (let i = layers - 1; i >= 0; i--)\<close>, from counter \<open>i\<close> on.
\<close>

function draw_loop :: "app \<Rightarrow> image \<Rightarrow> int \<Rightarrow> draw_op list" where
  "draw_loop st img i =
     (if i \<ge> 0
      then drawImage img (layer st img (nat i)) # draw_loop st img (i - 1)
      else [])"
  by pat_completeness auto
termination
  by (relation "measure (\<lambda>(st, img, i). nat (i + 1))") auto

declare draw_loop.simps [simp del]

text \<open>
  \<^verbatim>\<open>draw\<close>, given what \<^verbatim>\<open>canvasRef.current\<close> holds: \<open>None\<close> before the canvas is
  mounted. A size that is not a whole number is truncated by the canvas.
\<close>

definition draw :: "app \<Rightarrow> surface option \<Rightarrow> surface option" where
  "draw st canvas =
     (case canvas of
        None \<Rightarrow> None
      | Some c \<Rightarrow>
          (let w = canvas_w st; h = canvas_h st;
               c = c\<lparr>px_width := nat \<lfloor>w * dpiScale st\<rfloor>,
                     px_height := nat \<lfloor>h * dpiScale st\<rfloor>, ops := []\<rparr>;
               c = c\<lparr>xform := dpiScale st\<rparr>;
               c = c\<lparr>ops := ops c @ [FillRect (bg st) 0 0 w h]\<rparr>
           in case imgObj st of
                None \<Rightarrow> Some c
              | Some img \<Rightarrow> Some (c\<lparr>ops := ops c @ draw_loop st img (layers st - 1)\<rparr>)))"

text \<open>
  What a point of the canvas shows. \<^verbatim>\<open>fillRect\<close> and \<^verbatim>\<open>drawImage\<close> paint the rectangle
  spanned by x, y, width and height (a negative extent spans it from the other side).
  The code never sets \<^verbatim>\<open>globalCompositeOperation\<close>, so both composite source-over: the
  fill, whose colours are opaque, replaces what was there; the image replaces it where
  the image is opaque, leaves it where the image is transparent, and is blended with it
  in between. Resampling is not modelled: a point painted by \<^verbatim>\<open>drawImage\<close> records the
  image and where in the destination rectangle it lies, as fractions of the rectangle's
  extents, and takes the opacity of the image at these fractions.
\<close>

datatype paint = Transparent | Fill string | Texel image real real | Blend real paint paint

definition covers :: "real \<Rightarrow> real \<Rightarrow> real \<Rightarrow> real \<Rightarrow> real \<times> real \<Rightarrow> bool" where
  "covers x y w h p =
     (min x (x + w) \<le> fst p \<and> fst p < max x (x + w) \<and>
      min y (y + h) \<le> snd p \<and> snd p < max y (y + h))"

fun paint_op :: "draw_op \<Rightarrow> real \<times> real \<Rightarrow> paint \<Rightarrow> paint" where
  "paint_op (FillRect c x y w h) p old = (if covers x y w h p then Fill c else old)"
| "paint_op (DrawImage img x y w h) p old =
     (if covers x y w h p
      then (let u = (fst p - x) / w; v = (snd p - y) / h; a = img_alpha img (u, v)
            in if 1 \<le> a then Texel img u v
               else if a \<le> 0 then old
               else Blend a (Texel img u v) old)
      else old)"

definition paint_at :: "draw_op list \<Rightarrow> real \<times> real \<Rightarrow> paint" where
  "paint_at os p = foldl (\<lambda>old d. paint_op d p old) Transparent os"

text \<open>
  The paint at a point \<open>q\<close> of the backing store: the calls are in logical coordinates,
  which the transform multiplies by \<open>xform\<close>.
\<close>

definition pixel_at :: "surface \<Rightarrow> real \<times> real \<Rightarrow> paint" where
  "pixel_at c q = paint_at (ops c) (fst q / xform c, snd q / xform c)"

definition on_surface :: "surface \<Rightarrow> real \<times> real \<Rightarrow> bool" where
  "on_surface c q =
     (0 \<le> fst q \<and> fst q < real (px_width c) \<and> 0 \<le> snd q \<and> snd q < real (px_height c))"

subsection \<open>Rendering and image loading\<close>

text \<open>
  The dependency list of the effect that calls \<^verbatim>\<open>draw\<close>. React compares the image by
  identity and the model by value; \<^verbatim>\<open>draw\<close> repaints the whole canvas from these
  values, so a run that the model leaves out would repaint what is there already.
\<close>

definition deps ::
  "app \<Rightarrow> string \<times> size_preset \<times> direction \<times> int \<times> real \<times> real \<times> real \<times> anchor \<times> real \<times> real
     \<times> image option \<times> real" where
  "deps st = (bg st, canvas_size st, direction st, repeats st, gapPct st, stepScale st,
     yOffsetPct st, anchor st, padding st, baseScalePct st, imgObj st, dpiScale st)"

record page =
  state :: app
  canvasRef :: "surface option"

text \<open>One render with new state: the effect runs when a dependency has changed.\<close>

definition commit :: "app \<Rightarrow> page \<Rightarrow> page" where
  "commit new pg =
     \<lparr>state = new,
      canvasRef = (if deps new = deps (state pg) then canvasRef pg
                   else draw new (canvasRef pg))\<rparr>"

text \<open>The page after its first render, whose effects always run, on a fresh canvas.\<close>

definition fresh_canvas :: surface where
  "fresh_canvas = \<lparr>px_width = 300, px_height = 150, xform = 1, ops = []\<rparr>"

definition mounted :: page where
  "mounted = \<lparr>state = initial_app, canvasRef = draw initial_app (Some fresh_canvas)\<rparr>"

text \<open>The handlers \<^verbatim>\<open>img.onload\<close> and \<^verbatim>\<open>img.onerror\<close> installed by \<^verbatim>\<open>onFile\<close>.\<close>

definition img_onload :: "image \<Rightarrow> page \<Rightarrow> page" where
  "img_onload img pg = commit ((state pg)\<lparr>imgObj := Some img\<rparr>) pg"

definition img_onerror :: "page \<Rightarrow> page" where
  "img_onerror pg =
     (let pg = commit ((state pg)\<lparr>imgObj := None\<rparr>) pg;
          pg = commit ((state pg)\<lparr>imgURL := None\<rparr>) pg
      in pg)"

text \<open>
  A chosen file: the object URL made for it, and the image its bytes decode to, if any.
  \<^verbatim>\<open>onFile\<close> is followed here by the handler that the decoder calls.
\<close>

record upload =
  file_url :: string
  file_image :: "image option"

definition onFile :: "upload option \<Rightarrow> page \<Rightarrow> page" where
  "onFile f pg =
     (case f of
        None \<Rightarrow> pg
      | Some fl \<Rightarrow>
          (let pg = commit ((state pg)\<lparr>imgURL := Some (file_url fl)\<rparr>) pg
           in case file_image fl of
                Some img \<Rightarrow> img_onload img pg
              | None \<Rightarrow> img_onerror pg))"

subsection \<open>The specification's formulas\<close>

text \<open>
  What the specification says in its own terms, to compare with the code above: the side
  of the canvas an anchor sits at, the start position per anchor, the pivot correction
  per side, and the clamp.
\<close>

datatype side = Near | Middle | Far

fun h_side :: "anchor \<Rightarrow> side" where
  "h_side TopLeft = Near"
| "h_side TopRight = Far"
| "h_side BottomLeft = Near"
| "h_side BottomRight = Far"
| "h_side Center = Middle"

fun v_side :: "anchor \<Rightarrow> side" where
  "v_side TopLeft = Near"
| "v_side TopRight = Near"
| "v_side BottomLeft = Far"
| "v_side BottomRight = Far"
| "v_side Center = Middle"

fun spec_start :: "anchor \<Rightarrow> real \<Rightarrow> real \<Rightarrow> real \<Rightarrow> real \<Rightarrow> real \<Rightarrow> real \<times> real" where
  "spec_start TopLeft pad dw dh cw ch = (pad, pad)"
| "spec_start TopRight pad dw dh cw ch = (cw - pad - dw, pad)"
| "spec_start BottomLeft pad dw dh cw ch = (pad, ch - pad - dh)"
| "spec_start BottomRight pad dw dh cw ch = (cw - pad - dw, ch - pad - dh)"
| "spec_start Center pad dw dh cw ch = ((cw - dw) / 2, (ch - dh) / 2)"

fun spec_pivot :: "side \<Rightarrow> real \<Rightarrow> real" where
  "spec_pivot Near d = 0"
| "spec_pivot Middle d = d / 2"
| "spec_pivot Far d = d"

definition clamp :: "int \<Rightarrow> int \<Rightarrow> int \<Rightarrow> int" where
  "clamp x lo hi = (if x < lo then lo else if hi < x then hi else x)"

text \<open>The centre of the rectangle drawn for layer \<open>i\<close>.\<close>

definition layer_center :: "app \<Rightarrow> image \<Rightarrow> nat \<Rightarrow> real \<times> real" where
  "layer_center st img i =
     (layer_x st img i + layer_w st img i / 2, layer_y st img i + layer_h st img i / 2)"

text \<open>All the layers drawn have the centre of layer 0.\<close>

definition common_center :: "app \<Rightarrow> image \<Rightarrow> bool" where
  "common_center st img =
     list_all (\<lambda>i. layer_center st img i = layer_center st img 0) [0..<nat (layers st)]"

text \<open>The values the specification documents for a configuration.\<close>

definition in_domain :: "app \<Rightarrow> bool" where
  "in_domain st =
     (canvas_size st \<in> set SIZES \<and> bg st \<in> set PALETTE \<and>
      1 \<le> repeats st \<and> repeats st \<le> 6 \<and>
      - 60 \<le> gapPct st \<and> gapPct st \<le> 60 \<and>
      60 \<le> stepScale st \<and> stepScale st \<le> 110 \<and>
      - 60 \<le> yOffsetPct st \<and> yOffsetPct st \<le> 60 \<and>
      0 \<le> padding st \<and> padding st \<le> 200 \<and>
      20 \<le> baseScalePct st \<and> baseScalePct st \<le> 120 \<and>
      1 \<le> dpiScale st \<and> dpiScale st \<le> 2)"

subsection \<open>Sample inputs\<close>

text \<open>
  A landscape photo, a portrait photo and a panorama, all opaque, for the concrete cases
  below.
\<close>

definition photo :: image where
  "photo = \<lparr>img_width = 800, img_height = 600, img_alpha = (\<lambda>p. 1)\<rparr>"

definition portrait :: image where
  "portrait = \<lparr>img_width = 600, img_height = 800, img_alpha = (\<lambda>p. 1)\<rparr>"

definition panorama :: image where
  "panorama = \<lparr>img_width = 1600, img_height = 400, img_alpha = (\<lambda>p. 1)\<rparr>"

text \<open>Two uploads: one that decodes to \<open>photo\<close>, and one whose bytes are no image.\<close>

definition good_upload :: upload where
  "good_upload = \<lparr>file_url = ''blob:1'', file_image = Some photo\<rparr>"

definition bad_upload :: upload where
  "bad_upload = \<lparr>file_url = ''blob:2'', file_image = None\<rparr>"

text \<open>The canvas of the defaults without an image, and with \<open>photo\<close> loaded.\<close>

definition backdrop :: surface where
  "backdrop = \<lparr>px_width = 1200, px_height = 675, xform = 1,
     ops = [FillRect ''#6BFF7A'' 0 0 1200 675]\<rparr>"

definition stacked :: surface where
  "stacked = \<lparr>px_width = 1200, px_height = 675, xform = 1,
     ops = [FillRect ''#6BFF7A'' 0 0 1200 675,
            DrawImage photo 438.9 268.275 510.3 382.725,
            DrawImage photo 495.6 225.75 567 425.25,
            DrawImage photo 546 178.5 630 472.5]\<rparr>"

text \<open>
  A picture of the size of \<open>photo\<close> whose left margin, 15 percent of its width, is
  transparent; the defaults with it loaded, and the canvas drawn for them.
\<close>

definition cutout :: image where
  "cutout = \<lparr>img_width = 800, img_height = 600,
     img_alpha = (\<lambda>p. if fst p < 3 / 20 then 0 else 1)\<rparr>"

definition cutout_config :: app where
  "cutout_config = initial_app\<lparr>imgObj := Some cutout\<rparr>"

definition cutout_stacked :: surface where
  "cutout_stacked = \<lparr>px_width = 1200, px_height = 675, xform = 1,
     ops = [FillRect ''#6BFF7A'' 0 0 1200 675,
            DrawImage cutout 438.9 268.275 510.3 382.725,
            DrawImage cutout 495.6 225.75 567 425.25,
            DrawImage cutout 546 178.5 630 472.5]\<rparr>"

text \<open>Three configurations within the documented ranges, for the last section.\<close>

definition wide_config :: app where
  "wide_config = initial_app\<lparr>baseScalePct := 120, imgObj := Some panorama\<rparr>"

definition padded_config :: app where
  "padded_config = initial_app\<lparr>padding := 200, repeats := 1, imgObj := Some portrait\<rparr>"

definition spilling_config :: app where
  "spilling_config =
     initial_app\<lparr>anchor := TopLeft, baseScalePct := 120, repeats := 1, imgObj := Some panorama\<rparr>"

section \<open>Properties of the geometry\<close>

lemmas geom_defs = startX_def startY_def drawW_def drawH_def baseTarget_def shortest_def
  canvas_w_def canvas_h_def dir_def gapPx_def yStepPx_def scaleStep_def imgRatio_def
  layer_scale_def

lemma layer_zero:
  "layer st img 0 = (startX st img, startY st img, drawW st img, drawH st img)"
  by (cases "anchor st") (simp_all add: layer_def layer_scale_def Let_def)

lemma start_spec:
  "(startX st img, startY st img) =
     spec_start (anchor st) (padding st) (drawW st img) (drawH st img) (canvas_w st) (canvas_h st)"
  by (cases "anchor st") (simp_all add: startX_def startY_def str_includes_def Let_def)

lemma start_indep:
  "startX (st\<lparr>gapPct := g, yOffsetPct := yo, stepScale := s\<rparr>) img = startX st img"
  "startY (st\<lparr>gapPct := g, yOffsetPct := yo, stepScale := s\<rparr>) img = startY st img"
  "drawW (st\<lparr>gapPct := g, yOffsetPct := yo, stepScale := s\<rparr>) img = drawW st img"
  "drawH (st\<lparr>gapPct := g, yOffsetPct := yo, stepScale := s\<rparr>) img = drawH st img"
  by (simp_all add: startX_def startY_def drawW_def drawH_def baseTarget_def shortest_def
      canvas_w_def canvas_h_def Let_def)

lemma layer_parts:
  "layer_w st img i = drawW st img * layer_scale st i"
  "layer_h st img i = drawH st img * layer_scale st i"
  "layer_x st img i = startX st img + dir st * gapPx st img * real i
       + spec_pivot (h_side (anchor st)) (drawW st img - layer_w st img i)"
  "layer_y st img i = startY st img + yStepPx st img * real i
       + spec_pivot (v_side (anchor st)) (drawH st img - layer_h st img i)"
  by (cases "anchor st";
      simp add: layer_w_def layer_h_def layer_x_def layer_y_def layer_def Let_def)+

lemma layer_tuple:
  "layer st img i = (layer_x st img i, layer_y st img i, layer_w st img i, layer_h st img i)"
  by (simp add: layer_x_def layer_y_def layer_w_def layer_h_def)

lemma layer_top_left:
  "layer (st\<lparr>anchor := TopLeft\<rparr>) img i =
     (padding st + dir st * gapPx st img * real i, padding st + yStepPx st img * real i,
      drawW st img * layer_scale st i, drawH st img * layer_scale st i)"
  by (simp add: layer_def Let_def geom_defs str_includes_def)

text \<open>The defaults with the landscape photo: the configuration of Scenario A.\<close>

lemma decoded_samples: "decoded photo" "decoded portrait" "decoded panorama"
  by (simp_all add: decoded_def photo_def portrait_def panorama_def)

lemma photo_ratio: "imgRatio photo = 4 / 3"
  by (simp add: imgRatio_def photo_def)

lemma photo_geometry:
  "drawW (initial_app\<lparr>imgURL := u, imgObj := io\<rparr>) photo = 630"
  "drawH (initial_app\<lparr>imgURL := u, imgObj := io\<rparr>) photo = 945 / 2"
  "startX (initial_app\<lparr>imgURL := u, imgObj := io\<rparr>) photo = 546"
  "startY (initial_app\<lparr>imgURL := u, imgObj := io\<rparr>) photo = 357 / 2"
  by (simp_all add: geom_defs initial_app_def photo_def str_includes_def Let_def)

lemma photo_layers:
  "layer (initial_app\<lparr>imgURL := u, imgObj := io\<rparr>) photo 0 = (546, 178.5, 630, 472.5)"
  "layer (initial_app\<lparr>imgURL := u, imgObj := io\<rparr>) photo 1 = (495.6, 225.75, 567, 425.25)"
  "layer (initial_app\<lparr>imgURL := u, imgObj := io\<rparr>) photo 2 =
     (438.9, 268.275, 510.3, 382.725)"
  by (simp_all add: layer_def photo_geometry Let_def layer_scale_def scaleStep_def gapPx_def
      yStepPx_def dir_def power2_eq_square) (simp_all add: initial_app_def)

lemma initial_app_upd: "initial_app\<lparr>imgURL := None, imgObj := None\<rparr> = initial_app"
  by (simp add: initial_app_def)

lemma scenario_A:
  "drawH initial_app photo = 472.5"
  "drawW initial_app photo = 630"
  "layer initial_app photo 0 = (1200 - 24 - 630, 675 - 24 - 472.5, 630, 472.5)"
  "layer_scale initial_app 1 = 0.9"
  "dir initial_app * gapPx initial_app photo * real 1 = - 113.4"
  "layer initial_app photo 1 =
     (1200 - 24 - 630 - 113.4 + (630 - 630 * 0.9), 675 - 24 - 472.5 + (472.5 - 472.5 * 0.9),
      630 * 0.9, 472.5 * 0.9)"
proof -
  note g = photo_geometry [of None None, unfolded initial_app_upd]
  note l = photo_layers [of None None, unfolded initial_app_upd]
  show "drawH initial_app photo = 472.5" "drawW initial_app photo = 630"
    by (simp_all add: g)
  show "layer initial_app photo 0 = (1200 - 24 - 630, 675 - 24 - 472.5, 630, 472.5)"
    by (simp add: l)
  show "layer_scale initial_app 1 = 0.9"
    by (simp add: layer_scale_def scaleStep_def initial_app_def)
  show "dir initial_app * gapPx initial_app photo * real 1 = - 113.4"
    by (simp add: gapPx_def g) (simp add: dir_def initial_app_def)
  show "layer initial_app photo 1 =
     (1200 - 24 - 630 - 113.4 + (630 - 630 * 0.9), 675 - 24 - 472.5 + (472.5 - 472.5 * 0.9),
      630 * 0.9, 472.5 * 0.9)"
    using l(2) by simp
qed

text \<open>
  C1. For a decoded image, the rectangle of layer 0 is the base rectangle at the start
  position: its corner is at \<open>(startX, startY)\<close> and its extents are \<open>drawW\<close> and \<open>drawH\<close>,
  so each corner of layer 0 is that corner of the base rectangle. The start position is
  the one the specification lists for the anchor, the padding, the draw size and the
  canvas size. Changing \<open>gapPct\<close>, \<open>yOffsetPct\<close> and \<open>stepScale\<close>, alone or together,
  leaves the rectangle of layer 0 as it is.
\<close>

theorem layer0_at_start:
  assumes "decoded img"
  shows "layer st img 0 = (startX st img, startY st img, drawW st img, drawH st img) \<and>
         (startX st img, startY st img) =
            spec_start (anchor st) (padding st) (drawW st img) (drawH st img)
              (canvas_w st) (canvas_h st) \<and>
         layer (st\<lparr>gapPct := g, yOffsetPct := yo, stepScale := s\<rparr>) img 0 = layer st img 0"
  by (simp only: layer_zero start_indep start_spec simp_thms)

theorem layer0_at_start_witness:
  "decoded photo \<and>
   layer initial_app photo 0 = (546, 357 / 2, 630, 945 / 2) \<and>
   (546, 357 / 2) = spec_start BottomRight 24 630 (945 / 2) 1200 675 \<and>
   layer (initial_app\<lparr>gapPct := 40, yOffsetPct := 10, stepScale := 75\<rparr>) photo 0
     = (546, 357 / 2, 630, 945 / 2)"
proof -
  note g = photo_geometry [of None None, unfolded initial_app_upd]
  show ?thesis
    using decoded_samples(1)
      layer0_at_start [OF decoded_samples(1),
        where st = initial_app and g = 40 and yo = 10 and s = 75]
    by (simp add: g)
qed

lemma steps_pinned:
  "dir st = (if direction st = GrowRight then 1 else - 1)"
  "gapPx st img = gapPct st / 100 * drawW st img"
  "yStepPx st img = yOffsetPct st / 100 * drawH st img"
  "layer_scale st i = (stepScale st / 100) ^ i"
  by (cases "direction st"; simp add: dir_def gapPx_def yStepPx_def layer_scale_def scaleStep_def)+

text \<open>
  C2. For a decoded image and every layer index \<open>i\<close>, the rectangle drawn has
  x = startX + dir * gapPx * i plus the pivot correction of the anchor's horizontal side
  applied to drawW - w_i, and y = startY + yStepPx * i plus the pivot correction of the
  anchor's vertical side applied to drawH - h_i, where the correction is the whole
  difference on the right or bottom side, half of it at the centre and nothing on the
  left or top side; w_i and h_i are drawW and drawH times the scale of the layer. Here
  dir is 1 for the direction right and -1 for left, gapPx is gapPct percent of drawW,
  yStepPx is yOffsetPct percent of drawH, the scale is (stepScale / 100) ^ i, and the
  start position is the one listed for the anchor. With the top-left anchor nothing is
  added. In Scenario A, drawH is 472.5 and drawW is 630, layer 0 is at
  (1200 - 24 - 630, 675 - 24 - 472.5), layer 1 has scale 0.9, its x before the
  correction is 113.4 to the left of startX, and the correction adds 630 - 567.
\<close>

theorem layer_position_pivot:
  assumes "decoded img"
  shows "layer st img i =
           (startX st img + dir st * gapPx st img * real i
              + spec_pivot (h_side (anchor st)) (drawW st img - layer_w st img i),
            startY st img + yStepPx st img * real i
              + spec_pivot (v_side (anchor st)) (drawH st img - layer_h st img i),
            layer_w st img i, layer_h st img i) \<and>
         layer_w st img i = drawW st img * layer_scale st i \<and>
         layer_h st img i = drawH st img * layer_scale st i \<and>
         dir st = (if direction st = GrowRight then 1 else - 1) \<and>
         gapPx st img = gapPct st / 100 * drawW st img \<and>
         yStepPx st img = yOffsetPct st / 100 * drawH st img \<and>
         layer_scale st i = (stepScale st / 100) ^ i \<and>
         (startX st img, startY st img) =
            spec_start (anchor st) (padding st) (drawW st img) (drawH st img)
              (canvas_w st) (canvas_h st) \<and>
         layer (st\<lparr>anchor := TopLeft\<rparr>) img i =
           (padding st + dir st * gapPx st img * real i, padding st + yStepPx st img * real i,
            drawW st img * layer_scale st i, drawH st img * layer_scale st i) \<and>
         drawH initial_app photo = 472.5 \<and> drawW initial_app photo = 630 \<and>
         layer initial_app photo 0 = (1200 - 24 - 630, 675 - 24 - 472.5, 630, 472.5) \<and>
         layer_scale initial_app 1 = 0.9 \<and>
         dir initial_app * gapPx initial_app photo * real 1 = - 113.4 \<and>
         layer initial_app photo 1 =
           (1200 - 24 - 630 - 113.4 + (630 - 630 * 0.9),
            675 - 24 - 472.5 + (472.5 - 472.5 * 0.9), 630 * 0.9, 472.5 * 0.9)"
proof -
  have "layer st img i =
          (layer_x st img i, layer_y st img i, layer_w st img i, layer_h st img i)"
    by (rule layer_tuple)
  then have p: "layer st img i =
           (startX st img + dir st * gapPx st img * real i
              + spec_pivot (h_side (anchor st)) (drawW st img - layer_w st img i),
            startY st img + yStepPx st img * real i
              + spec_pivot (v_side (anchor st)) (drawH st img - layer_h st img i),
            layer_w st img i, layer_h st img i)"
    using layer_parts(3,4) [of st img i] by simp
  show ?thesis
    by (intro conjI)
       (rule p layer_parts(1,2) steps_pinned start_spec layer_top_left scenario_A)+
qed

theorem layer_position_pivot_witness:
  "decoded photo \<and>
   layer (initial_app\<lparr>anchor := Center, yOffsetPct := 10\<rparr>) photo 2 =
     (285 - 2268 / 10 + (630 - 5103 / 10) / 2, 405 / 4 + 945 / 10 + (945 / 2 - 15309 / 40) / 2,
      5103 / 10, 15309 / 40) \<and>
   dir (initial_app\<lparr>direction := GrowLeft\<rparr>) = - 1 \<and>
   layer (initial_app\<lparr>direction := GrowLeft\<rparr>) photo 1 =
     (546 + 1134 / 10 + (630 - 567), 357 / 2 + (945 / 2 - 1701 / 4), 567, 1701 / 4)"
proof -
  let ?st = "initial_app\<lparr>anchor := Center, yOffsetPct := 10\<rparr>"
  let ?l = "initial_app\<lparr>direction := GrowLeft\<rparr>"
  have g: "drawW ?st photo = 630" "drawH ?st photo = 945 / 2"
      "startX ?st photo = 285" "startY ?st photo = 405 / 4"
    by (simp_all add: geom_defs initial_app_def photo_def str_includes_def Let_def)
  have v: "dir ?st = 1" "gapPx ?st photo = - 1134 / 10" "yStepPx ?st photo = 945 / 20"
      "layer_scale ?st 2 = 81 / 100" "anchor ?st = Center"
    by (simp_all add: gapPx_def yStepPx_def g)
       (simp_all add: dir_def layer_scale_def scaleStep_def initial_app_def power2_eq_square)
  have 1: "layer ?st photo 2 =
     (285 - 2268 / 10 + (630 - 5103 / 10) / 2, 405 / 4 + 945 / 10 + (945 / 2 - 15309 / 40) / 2,
      5103 / 10, 15309 / 40)"
    using layer_position_pivot [OF decoded_samples(1), where st = ?st and i = 2]
    by (simp add: g v)
  note L = layer_position_pivot [OF decoded_samples(1), where st = ?l and i = 1]
  have gl: "drawW ?l photo = 630" "drawH ?l photo = 945 / 2"
      "startX ?l photo = 546" "startY ?l photo = 357 / 2"
    by (simp_all add: geom_defs initial_app_def photo_def str_includes_def Let_def)
  have f: "direction ?l = GrowLeft" "gapPct ?l = - 18" "yOffsetPct ?l = 0" "stepScale ?l = 90"
      "anchor ?l = BottomRight"
    by (simp_all add: initial_app_def)
  have "dir ?l = (if direction ?l = GrowRight then 1 else - 1)"
    using L by blast
  then have 2: "dir ?l = - 1" by (simp add: f)
  have "gapPx ?l photo = gapPct ?l / 100 * drawW ?l photo"
    "yStepPx ?l photo = yOffsetPct ?l / 100 * drawH ?l photo"
    "layer_scale ?l 1 = (stepScale ?l / 100) ^ 1"
    "layer_w ?l photo 1 = drawW ?l photo * layer_scale ?l 1"
    "layer_h ?l photo 1 = drawH ?l photo * layer_scale ?l 1"
    using L by blast+
  then have w: "gapPx ?l photo = - 1134 / 10" "yStepPx ?l photo = 0"
    "layer_w ?l photo 1 = 567" "layer_h ?l photo 1 = 1701 / 4"
    by (simp_all add: f gl)
  have "layer ?l photo 1 =
           (startX ?l photo + dir ?l * gapPx ?l photo * real 1
              + spec_pivot (h_side (anchor ?l)) (drawW ?l photo - layer_w ?l photo 1),
            startY ?l photo + yStepPx ?l photo * real 1
              + spec_pivot (v_side (anchor ?l)) (drawH ?l photo - layer_h ?l photo 1),
            layer_w ?l photo 1, layer_h ?l photo 1)"
    using L by blast
  then have 3: "layer ?l photo 1 =
     (546 + 1134 / 10 + (630 - 567), 357 / 2 + (945 / 2 - 1701 / 4), 567, 1701 / 4)"
    using gl w 2 f by simp
  show ?thesis
    by (intro conjI) (rule decoded_samples(1) 1 2 3)+
qed

section \<open>Properties of the layer sequence\<close>

text \<open>
  C4. The scale of layer \<open>i\<close> is \<open>(stepScale / 100) ^ i\<close>, which is 1 for layer 0, and the
  extents drawn are the base extents times that scale. For a step between 0 and 100 the
  scales do not increase with the index, and for a step above 100 they do not decrease.
  (The configuration keeps the step within 60 and 110; a negative step would alternate
  in sign.)
\<close>

theorem scale_sequence:
  "layer_scale st i = (stepScale st / 100) ^ i \<and> layer_scale st 0 = 1 \<and>
   layer_w st img i = drawW st img * (stepScale st / 100) ^ i \<and>
   layer_h st img i = drawH st img * (stepScale st / 100) ^ i \<and>
   (0 \<le> stepScale st \<and> stepScale st \<le> 100 \<and> i \<le> j \<longrightarrow>
      layer_scale st j \<le> layer_scale st i) \<and>
   (100 < stepScale st \<and> i \<le> j \<longrightarrow> layer_scale st i \<le> layer_scale st j)"
proof -
  have dec: "layer_scale st j \<le> layer_scale st i"
    if "0 \<le> stepScale st" "stepScale st \<le> 100" "i \<le> j"
    using that by (simp add: layer_scale_def scaleStep_def power_decreasing)
  have inc: "layer_scale st i \<le> layer_scale st j" if "100 < stepScale st" "i \<le> j"
    using that by (simp add: layer_scale_def scaleStep_def power_increasing)
  show ?thesis
    using dec inc by (simp add: layer_parts) (simp add: layer_scale_def scaleStep_def)
qed

theorem scale_sequence_witness:
  "0 \<le> stepScale initial_app \<and> stepScale initial_app \<le> 100 \<and> (1::nat) \<le> 2 \<and>
   layer_scale initial_app 2 \<le> layer_scale initial_app 1 \<and>
   layer_scale initial_app 2 = 81 / 100 \<and>
   100 < stepScale (initial_app\<lparr>stepScale := 110\<rparr>) \<and>
   layer_scale (initial_app\<lparr>stepScale := 110\<rparr>) 1
     \<le> layer_scale (initial_app\<lparr>stepScale := 110\<rparr>) 2 \<and>
   layer_scale (initial_app\<lparr>stepScale := 110\<rparr>) 2 = 121 / 100"
proof -
  let ?a = initial_app and ?b = "initial_app\<lparr>stepScale := 110\<rparr>"
  have a: "0 \<le> stepScale ?a" "stepScale ?a \<le> 100" "(1::nat) \<le> 2"
    by (simp_all add: initial_app_def)
  have b: "100 < stepScale ?b" by simp
  have 1: "layer_scale ?a 2 \<le> layer_scale ?a 1"
    using scale_sequence [where st = ?a and i = 1 and j = 2 and img = photo] a by blast
  have 2: "layer_scale ?b 1 \<le> layer_scale ?b 2"
    using scale_sequence [where st = ?b and i = 1 and j = 2 and img = photo] a(3) b by blast
  have "layer_scale ?a 2 = (stepScale ?a / 100) ^ 2"
    using scale_sequence [where st = ?a and i = 2 and j = 2 and img = photo] by blast
  then have 3: "layer_scale ?a 2 = 81 / 100"
    by (simp add: initial_app_def power2_eq_square)
  have "layer_scale ?b 2 = (stepScale ?b / 100) ^ 2"
    using scale_sequence [where st = ?b and i = 2 and j = 2 and img = photo] by blast
  then have 4: "layer_scale ?b 2 = 121 / 100"
    by (simp add: power2_eq_square)
  show ?thesis
    by (intro conjI) (rule a b 1 2 3 4)+
qed

lemma length_draw_loop: "length (draw_loop st img i) = nat (i + 1)"
proof (induction st img i rule: draw_loop.induct)
  case (1 st img i)
  show ?case
  proof (cases "0 \<le> i")
    case True
    with 1 show ?thesis by (subst draw_loop.simps) (simp add: nat_add_distrib)
  next
    case False
    then show ?thesis by (subst draw_loop.simps) simp
  qed
qed

lemma draw_loop_all_drawImage: "list_all is_drawImage (draw_loop st img i)"
proof (induction st img i rule: draw_loop.induct)
  case (1 st img i)
  show ?case
  proof (cases "0 \<le> i")
    case True
    obtain x y w h where l: "layer st img (nat i) = (x, y, w, h)"
      by (cases "layer st img (nat i)") auto
    from True 1 show ?thesis by (subst draw_loop.simps) (simp add: l)
  next
    case False
    then show ?thesis by (subst draw_loop.simps) simp
  qed
qed

lemma draw_loop_map:
  "draw_loop st img (int n - 1) = map (\<lambda>i. drawImage img (layer st img i)) (rev [0..<n])"
proof (induction n)
  case 0
  show ?case by (subst draw_loop.simps) simp
next
  case (Suc n)
  have "draw_loop st img (int (Suc n) - 1) =
        drawImage img (layer st img n) # draw_loop st img (int n - 1)"
    by (subst draw_loop.simps) simp
  with Suc show ?case by simp
qed

lemma layers_clamp: "layers st = clamp (repeats st) 1 6"
  by (simp add: layers_def clamp_def)

lemma draw_ops:
  "draw st (Some c) = Some c' \<Longrightarrow> imgObj st = Some img \<Longrightarrow>
   ops c' = FillRect (bg st) 0 0 (canvas_w st) (canvas_h st) # draw_loop st img (layers st - 1)"
  by (auto simp: draw_def Let_def)

lemma draw_Some: "\<exists>c'. draw st (Some c) = Some c'"
  by (simp add: draw_def Let_def split: option.splits)

text \<open>
  C5. With an image loaded, \<^verbatim>\<open>draw\<close> returns a canvas on which \<^verbatim>\<open>drawImage\<close> was called
  as many times as \<open>repeats\<close> clamped to the range from 1 to 6, whatever \<open>repeats\<close> is: six
  times for 9, once for 0.
\<close>

theorem layer_count_clamped:
  assumes "imgObj st = Some img"
  shows "\<exists>c'. draw st (Some c) = Some c' \<and>
           length (filter is_drawImage (ops c')) = nat (clamp (repeats st) 1 6) \<and>
           layers st = clamp (repeats st) 1 6 \<and>
           layers (st\<lparr>repeats := 9\<rparr>) = 6 \<and> layers (st\<lparr>repeats := 0\<rparr>) = 1"
proof -
  obtain c' where c': "draw st (Some c) = Some c'" using draw_Some by blast
  have "filter is_drawImage (ops c') = draw_loop st img (layers st - 1)"
    using draw_ops [OF c' assms] draw_loop_all_drawImage [of st img "layers st - 1"]
    by (simp add: list_all_iff)
  then have "length (filter is_drawImage (ops c')) = nat (layers st)"
    by (simp add: length_draw_loop)
  then show ?thesis using c' by (simp add: layers_clamp clamp_def)
qed

theorem layer_count_clamped_witness:
  "imgObj (initial_app\<lparr>repeats := 9, imgObj := Some photo\<rparr>) = Some photo \<and>
   (\<exists>c'. draw (initial_app\<lparr>repeats := 9, imgObj := Some photo\<rparr>) (Some fresh_canvas) = Some c' \<and>
      length (filter is_drawImage (ops c')) = 6)"
proof -
  let ?st = "initial_app\<lparr>repeats := 9, imgObj := Some photo\<rparr>"
  have h: "imgObj ?st = Some photo" by simp
  have "nat (clamp (repeats ?st) 1 6) = 6" by (simp add: clamp_def)
  with h layer_count_clamped [OF h, of fresh_canvas] show ?thesis by auto
qed

section \<open>Properties of the base rectangle\<close>

lemma shorter_side:
  assumes "decoded img" "0 \<le> baseScalePct st"
  shows "min (drawW st img) (drawH st img) = baseScalePct st / 100 * min (canvas_w st) (canvas_h st)"
proof -
  let ?t = "baseTarget st" and ?r = "imgRatio img"
  have t: "0 \<le> ?t"
    using assms(2) by (simp add: baseTarget_def shortest_def canvas_w_def canvas_h_def)
  have r: "0 < ?r" using assms(1) by (simp add: decoded_def imgRatio_def)
  have "min (drawW st img) (drawH st img) = ?t"
  proof (cases "?r \<ge> 1")
    case True
    then have "?t * 1 \<le> ?t * ?r" using t by (intro mult_left_mono) simp_all
    with True show ?thesis by (simp add: drawW_def drawH_def)
  next
    case False
    then have "?t * ?r \<le> ?t * 1" using t by (intro mult_left_mono) simp_all
    then have "?t \<le> ?t / ?r" using r by (simp add: pos_le_divide_eq)
    with False show ?thesis by (simp add: drawW_def drawH_def)
  qed
  then show ?thesis by (simp add: baseTarget_def shortest_def)
qed

text \<open>
  C6. For a decoded image, with the target \<open>baseScalePct / 100 * min canvas_w canvas_h\<close>:
  when the ratio of width to height is at least 1, \<open>drawH\<close> is the target and \<open>drawW\<close> the
  target times the ratio; otherwise \<open>drawW\<close> is the target and \<open>drawH\<close> the target divided
  by the ratio. For a base scale that is not negative, the shorter of the two extents is
  the target. A 600 by 800 image at 50 percent on a 1200 by 1200 canvas is drawn 600 by
  800.
\<close>

theorem layout_resolver_size:
  assumes "decoded img"
  shows "imgRatio img = real (img_width img) / real (img_height img) \<and>
         (imgRatio img \<ge> 1 \<longrightarrow>
            drawH st img = baseScalePct st / 100 * min (canvas_w st) (canvas_h st) \<and>
            drawW st img = baseScalePct st / 100 * min (canvas_w st) (canvas_h st) * imgRatio img) \<and>
         (imgRatio img < 1 \<longrightarrow>
            drawW st img = baseScalePct st / 100 * min (canvas_w st) (canvas_h st) \<and>
            drawH st img = baseScalePct st / 100 * min (canvas_w st) (canvas_h st) / imgRatio img) \<and>
         (0 \<le> baseScalePct st \<longrightarrow>
            min (drawW st img) (drawH st img) =
              baseScalePct st / 100 * min (canvas_w st) (canvas_h st)) \<and>
         drawW (st\<lparr>canvas_size := \<lparr>size_w = 1200, size_h = 1200\<rparr>, baseScalePct := 50\<rparr>) portrait
           = 600 \<and>
         drawH (st\<lparr>canvas_size := \<lparr>size_w = 1200, size_h = 1200\<rparr>, baseScalePct := 50\<rparr>) portrait
           = 800"
proof -
  have r: "imgRatio img = real (img_width img) / real (img_height img)"
    by (rule imgRatio_def)
  have l: "drawH st img = baseScalePct st / 100 * min (canvas_w st) (canvas_h st) \<and>
           drawW st img = baseScalePct st / 100 * min (canvas_w st) (canvas_h st) * imgRatio img"
    if "imgRatio img \<ge> 1"
    using that by (simp add: drawW_def drawH_def baseTarget_def shortest_def)
  have p: "drawW st img = baseScalePct st / 100 * min (canvas_w st) (canvas_h st) \<and>
           drawH st img = baseScalePct st / 100 * min (canvas_w st) (canvas_h st) / imgRatio img"
    if "imgRatio img < 1"
    using that by (simp add: drawW_def drawH_def baseTarget_def shortest_def)
  have c: "drawW (st\<lparr>canvas_size := \<lparr>size_w = 1200, size_h = 1200\<rparr>, baseScalePct := 50\<rparr>)
             portrait = 600"
          "drawH (st\<lparr>canvas_size := \<lparr>size_w = 1200, size_h = 1200\<rparr>, baseScalePct := 50\<rparr>)
             portrait = 800"
    by (simp_all add: geom_defs portrait_def)
  show ?thesis
    using r l p c shorter_side [OF assms, of st] by blast
qed

theorem layout_resolver_size_witness:
  "decoded photo \<and> imgRatio photo \<ge> 1 \<and> 0 \<le> baseScalePct initial_app \<and>
   drawH initial_app photo = 945 / 2 \<and> drawW initial_app photo = 630 \<and>
   min (drawW initial_app photo) (drawH initial_app photo) = 945 / 2 \<and>
   decoded portrait \<and> imgRatio portrait < 1 \<and>
   drawW initial_app portrait = 945 / 2 \<and> drawH initial_app portrait = 630"
proof -
  let ?t = "baseScalePct initial_app / 100 * min (canvas_w initial_app) (canvas_h initial_app)"
  have t: "?t = 945 / 2"
    by (simp add: initial_app_def canvas_w_def canvas_h_def)
  have b: "0 \<le> baseScalePct initial_app" by (simp add: initial_app_def)
  have r: "imgRatio photo = 4 / 3" "imgRatio portrait = 3 / 4"
    by (simp_all add: imgRatio_def photo_def portrait_def)
  have r1: "imgRatio photo \<ge> 1" and r2: "imgRatio portrait < 1"
    by (simp_all add: r)
  note L = layout_resolver_size [OF decoded_samples(1), of initial_app]
  note P = layout_resolver_size [OF decoded_samples(2), of initial_app]
  have "drawH initial_app photo = ?t \<and> drawW initial_app photo = ?t * imgRatio photo"
    using L r1 by blast
  then have 1: "drawH initial_app photo = 945 / 2" "drawW initial_app photo = 630"
    unfolding t r by simp_all
  have "min (drawW initial_app photo) (drawH initial_app photo) = ?t"
    using L b by blast
  then have 2: "min (drawW initial_app photo) (drawH initial_app photo) = 945 / 2"
    by (simp only: t)
  have "drawW initial_app portrait = ?t \<and> drawH initial_app portrait = ?t / imgRatio portrait"
    using P r2 by blast
  then have 3: "drawW initial_app portrait = 945 / 2" "drawH initial_app portrait = 630"
    unfolding t r by simp_all
  show ?thesis
    by (intro conjI) (rule decoded_samples r1 r2 b 1 2 3)+
qed

section \<open>The centre anchor\<close>

lemma center_layer:
  assumes "anchor st = Center"
  shows "layer_center st img i =
           (canvas_w st / 2 + dir st * gapPx st img * real i,
            canvas_h st / 2 + yStepPx st img * real i)"
  using assms
  by (simp add: layer_center_def layer_parts startX_def startY_def str_includes_def Let_def
      field_simps)

lemma draw_size_pos:
  assumes "decoded img" "0 < baseScalePct st" "0 < size_w (canvas_size st)" "0 < size_h (canvas_size st)"
  shows "0 < drawW st img" "0 < drawH st img"
proof -
  have t: "0 < baseTarget st"
    using assms by (simp add: baseTarget_def shortest_def canvas_w_def canvas_h_def)
  have r: "0 < imgRatio img" using assms(1) by (simp add: decoded_def imgRatio_def)
  show "0 < drawW st img" "0 < drawH st img"
    using t r by (simp_all add: drawW_def drawH_def)
qed

lemma dir_nz: "dir st \<noteq> 0"
  by (simp add: dir_def)

lemma center_layer0:
  assumes "anchor st = Center"
  shows "layer_center st img 0 = (canvas_w st / 2, canvas_h st / 2)"
  using center_layer [OF assms, of img 0] by simp

lemma center_layer1:
  assumes "anchor st = Center"
  shows "layer_center st img 1 =
           (canvas_w st / 2 + dir st * gapPx st img, canvas_h st / 2 + yStepPx st img)"
  using center_layer [OF assms, of img 1] by simp

lemma common_center_iff:
  assumes "anchor st = Center" "2 \<le> repeats st" "drawW st img \<noteq> 0" "drawH st img \<noteq> 0"
  shows "common_center st img \<longleftrightarrow> gapPct st = 0 \<and> yOffsetPct st = 0"
proof
  assume cc: "common_center st img"
  have a: "\<forall>i\<in>set [0..<nat (layers st)]. layer_center st img i = layer_center st img 0"
    using cc unfolding common_center_def list_all_iff .
  have "1 < nat (layers st)" using assms(2) by (simp add: layers_def)
  then have "1 \<in> set [0..<nat (layers st)]" by simp
  with a have "layer_center st img 1 = layer_center st img 0" by blast
  then have e: "dir st * gapPx st img = 0 \<and> yStepPx st img = 0"
    by (simp only: center_layer0 [OF assms(1)] center_layer1 [OF assms(1)] prod.inject) simp
  from e have "gapPx st img = 0" using dir_nz [of st] by simp
  then have g: "gapPct st = 0" using assms(3) by (simp add: gapPx_def)
  from e have "yOffsetPct st = 0" using assms(4) by (simp add: yStepPx_def)
  with g show "gapPct st = 0 \<and> yOffsetPct st = 0" by simp
next
  assume z: "gapPct st = 0 \<and> yOffsetPct st = 0"
  have "layer_center st img i = layer_center st img 0" for i
    using z by (simp add: center_layer [OF assms(1)] gapPx_def yStepPx_def)
  then show "common_center st img"
    by (simp add: common_center_def list_all_iff)
qed

lemma single_layer_common: "repeats st \<le> 1 \<Longrightarrow> common_center st img"
  by (simp add: common_center_def layers_def)

lemma centered_single:
  "common_center (initial_app\<lparr>anchor := Center, repeats := 1\<rparr>) photo"
  "gapPct (initial_app\<lparr>anchor := Center, repeats := 1\<rparr>) = - 18"
  by (simp_all add: single_layer_common) (simp add: initial_app_def)

text \<open>
  C7 as stated fails: with a single layer (\<open>repeats = 1\<close>) and the default
  gap of -18 percent, all the layers drawn share one centre although the gap is not 0.
\<close>

theorem common_center_single_layer:
  "\<not> (common_center (initial_app\<lparr>anchor := Center, repeats := 1\<rparr>) photo \<longleftrightarrow>
        gapPct (initial_app\<lparr>anchor := Center, repeats := 1\<rparr>) = 0 \<and>
        yOffsetPct (initial_app\<lparr>anchor := Center, repeats := 1\<rparr>) = 0)"
  by (simp add: centered_single)

text \<open>
  C7, amended. With the centre anchor, a decoded image, a positive base scale and a
  canvas of positive size, the centre of layer 0 is the centre of the canvas, whatever
  the gap, the offset and the scale step are. When at least two layers are drawn
  (\<open>repeats\<close> at least 2), all layers share one centre exactly when \<open>gapPct\<close> and
  \<open>yOffsetPct\<close> are both 0; a single layer (\<open>repeats\<close> at most 1) has one centre in any case.
\<close>

theorem center_anchor_layers:
  assumes "anchor st = Center" "decoded img" "0 < baseScalePct st"
    "0 < size_w (canvas_size st)" "0 < size_h (canvas_size st)"
  shows "layer_center st img 0 = (canvas_w st / 2, canvas_h st / 2) \<and>
         (2 \<le> repeats st \<longrightarrow>
            (common_center st img \<longleftrightarrow> gapPct st = 0 \<and> yOffsetPct st = 0)) \<and>
         (repeats st \<le> 1 \<longrightarrow> common_center st img)"
proof -
  have nz: "drawW st img \<noteq> 0" "drawH st img \<noteq> 0"
    using draw_size_pos [OF assms(2-5)] by simp_all
  show ?thesis
    using center_layer0 [OF assms(1), of img] common_center_iff [OF assms(1) _ nz]
      single_layer_common [of st img]
    by blast
qed

theorem center_anchor_layers_witness:
  "anchor (initial_app\<lparr>anchor := Center\<rparr>) = Center \<and> decoded photo \<and>
   0 < baseScalePct (initial_app\<lparr>anchor := Center\<rparr>) \<and>
   0 < size_w (canvas_size (initial_app\<lparr>anchor := Center\<rparr>)) \<and>
   0 < size_h (canvas_size (initial_app\<lparr>anchor := Center\<rparr>)) \<and>
   2 \<le> repeats (initial_app\<lparr>anchor := Center\<rparr>) \<and>
   layer_center (initial_app\<lparr>anchor := Center\<rparr>) photo 0 = (600, 675 / 2) \<and>
   \<not> common_center (initial_app\<lparr>anchor := Center\<rparr>) photo \<and>
   repeats (initial_app\<lparr>anchor := Center, repeats := 1\<rparr>) \<le> 1 \<and>
   common_center (initial_app\<lparr>anchor := Center, repeats := 1\<rparr>) photo"
proof -
  let ?st = "initial_app\<lparr>anchor := Center\<rparr>" and ?s1 = "initial_app\<lparr>anchor := Center, repeats := 1\<rparr>"
  have h: "anchor ?st = Center" "decoded photo" "0 < baseScalePct ?st"
      "0 < size_w (canvas_size ?st)" "0 < size_h (canvas_size ?st)"
    by (simp_all add: decoded_samples) (simp_all add: initial_app_def)
  have h1: "anchor ?s1 = Center" "decoded photo" "0 < baseScalePct ?s1"
      "0 < size_w (canvas_size ?s1)" "0 < size_h (canvas_size ?s1)"
    by (simp_all add: decoded_samples) (simp_all add: initial_app_def)
  have v: "2 \<le> repeats ?st" "gapPct ?st = - 18" "repeats ?s1 \<le> 1"
      "canvas_w ?st = 1200" "canvas_h ?st = 675"
    by (simp_all add: canvas_w_def canvas_h_def) (simp_all add: initial_app_def)
  show ?thesis
    using h v center_anchor_layers [OF h] center_anchor_layers [OF h1]
    by simp
qed

section \<open>Properties of the canvas\<close>

text \<open>The pixel ratio that the mount effect stores is between 1 and 2, so it is positive.\<close>

lemma device_ratio_bounds: "1 \<le> device_ratio d \<and> device_ratio d \<le> 2"
  by (simp add: device_ratio_def)

lemma draw_no_image:
  "imgObj st = None \<Longrightarrow>
   draw st (Some c) = Some (c\<lparr>px_width := nat \<lfloor>canvas_w st * dpiScale st\<rfloor>,
      px_height := nat \<lfloor>canvas_h st * dpiScale st\<rfloor>, xform := dpiScale st,
      ops := [FillRect (bg st) 0 0 (canvas_w st) (canvas_h st)]\<rparr>)"
  by (simp add: draw_def Let_def)

lemma draw_frame:
  "draw st (Some c) = Some c' \<Longrightarrow>
   px_width c' = nat \<lfloor>canvas_w st * dpiScale st\<rfloor> \<and>
   px_height c' = nat \<lfloor>canvas_h st * dpiScale st\<rfloor> \<and> xform c' = dpiScale st"
  by (auto simp: draw_def Let_def split: option.splits)

lemma below_floor:
  fixes a b d :: real
  assumes "0 < d" "0 \<le> a" "a < real (nat \<lfloor>b * d\<rfloor>)"
  shows "a / d < b"
proof -
  have "real (nat \<lfloor>b * d\<rfloor>) \<le> b * d" using assms(2,3) by linarith
  with assms(3) have "a < b * d" by linarith
  then show ?thesis using assms(1) by (simp add: pos_divide_less_eq)
qed

lemma background_covers:
  assumes "draw st (Some c) = Some c'" "0 < dpiScale st" "on_surface c' q"
  shows "covers 0 0 (canvas_w st) (canvas_h st) (fst q / dpiScale st, snd q / dpiScale st)"
proof -
  note f = draw_frame [OF assms(1)]
  have w: "0 \<le> canvas_w st" "0 \<le> canvas_h st" by (simp_all add: canvas_w_def canvas_h_def)
  have x: "fst q / dpiScale st < canvas_w st"
    using assms(2,3) f by (intro below_floor) (simp_all add: on_surface_def)
  have y: "snd q / dpiScale st < canvas_h st"
    using assms(2,3) f by (intro below_floor) (simp_all add: on_surface_def)
  have "0 \<le> fst q / dpiScale st" "0 \<le> snd q / dpiScale st"
    using assms(2,3) by (simp_all add: on_surface_def)
  with x y w show ?thesis by (simp add: covers_def)
qed

text \<open>
  C8. With no image loaded, a mounted canvas and a positive pixel ratio, \<^verbatim>\<open>draw\<close> returns
  a canvas whose only drawing call is the fill of the whole logical canvas with \<open>bg\<close>, and
  every point of the backing store shows \<open>bg\<close>.
\<close>

theorem no_image_background:
  assumes "imgObj st = None" "0 < dpiScale st"
  shows "\<exists>c'. draw st (Some c) = Some c' \<and>
           ops c' = [FillRect (bg st) 0 0 (canvas_w st) (canvas_h st)] \<and>
           (\<forall>q. on_surface c' q \<longrightarrow> pixel_at c' q = Fill (bg st))"
proof -
  obtain c' where c': "draw st (Some c) = Some c'" using draw_Some by blast
  have o: "ops c' = [FillRect (bg st) 0 0 (canvas_w st) (canvas_h st)]"
    using c' draw_no_image [OF assms(1), of c] by auto
  have "pixel_at c' q = Fill (bg st)" if "on_surface c' q" for q
    using background_covers [OF c' assms(2) that] draw_frame [OF c']
    by (simp add: pixel_at_def paint_at_def o)
  with c' o show ?thesis by blast
qed

theorem no_image_background_witness:
  "imgObj initial_app = None \<and> 0 < dpiScale initial_app \<and>
   (\<exists>c'. draw initial_app (Some fresh_canvas) = Some c' \<and>
      ops c' = [FillRect ''#6BFF7A'' 0 0 1200 675] \<and>
      on_surface c' (1199, 674) \<and> pixel_at c' (1199, 674) = Fill ''#6BFF7A'')"
proof -
  have h: "imgObj initial_app = None" "0 < dpiScale initial_app"
    by (simp_all add: initial_app_def)
  obtain c' where c': "draw initial_app (Some fresh_canvas) = Some c'"
      "ops c' = [FillRect (bg initial_app) 0 0 (canvas_w initial_app) (canvas_h initial_app)]"
      "\<forall>q. on_surface c' q \<longrightarrow> pixel_at c' q = Fill (bg initial_app)"
    using no_image_background [OF h, of fresh_canvas] by blast
  have "on_surface c' (1199, 674)"
    using draw_frame [OF c'(1)] by (simp add: on_surface_def canvas_w_def canvas_h_def initial_app_def)
  with c' h show ?thesis
    by (auto simp: canvas_w_def canvas_h_def initial_app_def)
qed

lemma paint_at_snoc: "paint_at (os @ [d]) p = paint_op d p (paint_at os p)"
  by (simp add: paint_at_def)

lemma draw_loop_last:
  assumes "0 \<le> n"
  shows "\<exists>os. draw_loop st img n = os @ [drawImage img (layer st img 0)]"
proof -
  define m where "m = nat n"
  let ?f = "\<lambda>i. drawImage img (layer st img i)"
  have n: "n = int (Suc m) - 1" using assms by (simp add: m_def)
  have u: "[0..<Suc m] = 0 # [Suc 0..<Suc m]" by (rule upt_conv_Cons) simp
  have "draw_loop st img n = map ?f (rev [0..<Suc m])"
    unfolding n by (rule draw_loop_map)
  also have "\<dots> = map ?f (rev [Suc 0..<Suc m]) @ [?f 0]"
    by (simp only: u rev.simps map_append list.map)
  finally show ?thesis by blast
qed

text \<open>The defaults with the cut-out picture, which has the geometry of \<open>photo\<close>.\<close>

lemma cutout_frame:
  "imgObj cutout_config = Some cutout" "bg cutout_config = ''#6BFF7A''"
  "canvas_w cutout_config = 1200" "canvas_h cutout_config = 675" "dpiScale cutout_config = 1"
  "layers cutout_config = 3" "decoded cutout"
  by (simp_all add: cutout_config_def canvas_w_def canvas_h_def layers_def initial_app_def
      decoded_def cutout_def)

lemma cutout_geometry:
  "drawW cutout_config cutout = 630" "drawH cutout_config cutout = 945 / 2"
  "startX cutout_config cutout = 546" "startY cutout_config cutout = 357 / 2"
  by (simp_all add: geom_defs cutout_config_def initial_app_def cutout_def str_includes_def
      Let_def)

lemma cutout_layers:
  "layer cutout_config cutout 0 = (546, 178.5, 630, 472.5)"
  "layer cutout_config cutout (Suc 0) = (495.6, 225.75, 567, 425.25)"
  "layer cutout_config cutout 2 = (438.9, 268.275, 510.3, 382.725)"
  by (simp_all add: layer_def cutout_geometry Let_def layer_scale_def scaleStep_def gapPx_def
      yStepPx_def dir_def power2_eq_square) (simp_all add: cutout_config_def initial_app_def)

lemma cutout_alpha: "img_alpha cutout (u, v) = (if u < 3 / 20 then 0 else 1)"
  by (simp add: cutout_def)

lemma draw_loop_neg: "draw_loop st img (- 1) = []"
  by (subst draw_loop.simps) simp

lemma draw_loop_0: "draw_loop st img 0 = [drawImage img (layer st img 0)]"
  by (subst draw_loop.simps) (simp add: draw_loop_neg)

lemma draw_loop_1:
  "draw_loop st img 1 = [drawImage img (layer st img 1), drawImage img (layer st img 0)]"
  by (subst draw_loop.simps) (simp add: draw_loop_0)

lemma draw_loop_2:
  "draw_loop st img 2 =
     [drawImage img (layer st img 2), drawImage img (layer st img 1), drawImage img (layer st img 0)]"
  by (subst draw_loop.simps) (simp add: draw_loop_1)

lemma draw_with_image:
  "imgObj st = Some img \<Longrightarrow>
   draw st (Some c) =
     Some (c\<lparr>px_width := nat \<lfloor>canvas_w st * dpiScale st\<rfloor>,
             px_height := nat \<lfloor>canvas_h st * dpiScale st\<rfloor>, xform := dpiScale st,
             ops := FillRect (bg st) 0 0 (canvas_w st) (canvas_h st) #
                    draw_loop st img (layers st - 1)\<rparr>)"
  by (simp add: draw_def Let_def)

lemma cutout_draw: "draw cutout_config (Some fresh_canvas) = Some cutout_stacked"
  by (simp add: draw_with_image [OF cutout_frame(1)] cutout_frame draw_loop_2 cutout_layers
      fresh_canvas_def cutout_stacked_def)

lemma cutout_pixel:
  "pixel_at cutout_stacked (600, 300) =
     Texel cutout ((600 - 495.6) / 567) ((300 - 225.75) / 425.25)"
  by (simp add: pixel_at_def paint_at_def cutout_stacked_def covers_def cutout_alpha Let_def)

text \<open>
  C9 as stated fails in its last part: the calls are made in descending order, but the
  drawing is not an opaque overwrite. With the cut-out picture loaded, the point
  (600, 300) lies in the rectangle of layer 0, where the picture is transparent, and
  shows what the call for layer 1 painted there.
\<close>

theorem transparent_layer0_shows_layer1:
  "imgObj cutout_config = Some cutout \<and> decoded cutout \<and> 0 < dpiScale cutout_config \<and>
   draw cutout_config (Some fresh_canvas) = Some cutout_stacked \<and>
   layer cutout_config cutout 0 = (546, 178.5, 630, 472.5) \<and>
   layer cutout_config cutout 1 = (495.6, 225.75, 567, 425.25) \<and>
   covers 546 178.5 630 472.5 (600 / dpiScale cutout_config, 300 / dpiScale cutout_config) \<and>
   pixel_at cutout_stacked (600, 300) =
     Texel cutout ((600 - 495.6) / 567) ((300 - 225.75) / 425.25) \<and>
   pixel_at cutout_stacked (600, 300) \<noteq>
     Texel cutout ((600 / dpiScale cutout_config - 546) / 630)
                  ((300 / dpiScale cutout_config - 178.5) / 472.5)"
proof -
  have d: "0 < dpiScale cutout_config" by (simp add: cutout_frame)
  have l1: "layer cutout_config cutout 1 = (495.6, 225.75, 567, 425.25)"
    using cutout_layers(2) by simp
  have c: "covers 546 178.5 630 472.5 (600 / dpiScale cutout_config, 300 / dpiScale cutout_config)"
    by (simp add: covers_def cutout_frame)
  have n: "pixel_at cutout_stacked (600, 300) \<noteq>
     Texel cutout ((600 / dpiScale cutout_config - 546) / 630)
                  ((300 / dpiScale cutout_config - 178.5) / 472.5)"
    by (simp add: cutout_pixel cutout_frame)
  show ?thesis
    by (intro conjI) (rule cutout_frame(1,7) d cutout_draw cutout_layers(1) l1 c cutout_pixel n)+
qed

text \<open>
  C9, amended. With a decoded image loaded, a mounted canvas and a positive pixel ratio,
  the calls of \<^verbatim>\<open>drawImage\<close> made by \<^verbatim>\<open>draw\<close> are those of the layers N - 1, ..., 1, 0 in
  this order, where N is \<open>repeats\<close> clamped to the range from 1 to 6: the call for layer 0
  is the last one. The calls composite source-over: a point whose logical position lies
  in the rectangle of layer 0 shows the image as drawn for layer 0 where the image is
  opaque at the position drawn there.
\<close>

theorem back_to_front:
  assumes "imgObj st = Some img" "decoded img" "0 < dpiScale st"
  shows "\<exists>c'. draw st (Some c) = Some c' \<and>
           filter is_drawImage (ops c') =
             map (\<lambda>i. drawImage img (layer st img i)) (rev [0..<nat (clamp (repeats st) 1 6)]) \<and>
           last (ops c') = drawImage img (layer st img 0) \<and>
           (\<forall>q. covers (layer_x st img 0) (layer_y st img 0) (layer_w st img 0) (layer_h st img 0)
                   (fst q / dpiScale st, snd q / dpiScale st) \<and>
                 1 \<le> img_alpha img
                       ((fst q / dpiScale st - layer_x st img 0) / layer_w st img 0,
                        (snd q / dpiScale st - layer_y st img 0) / layer_h st img 0) \<longrightarrow>
                pixel_at c' q =
                  Texel img ((fst q / dpiScale st - layer_x st img 0) / layer_w st img 0)
                            ((snd q / dpiScale st - layer_y st img 0) / layer_h st img 0))"
proof -
  obtain c' where c': "draw st (Some c) = Some c'" using draw_Some by blast
  note o = draw_ops [OF c' assms(1)]
  have n: "layers st - 1 = int (nat (layers st)) - 1" by (simp add: layers_def)
  have m: "draw_loop st img (layers st - 1) =
           map (\<lambda>i. drawImage img (layer st img i)) (rev [0..<nat (layers st)])"
    by (subst n) (rule draw_loop_map)
  have f: "filter is_drawImage (ops c') = draw_loop st img (layers st - 1)"
    using o draw_loop_all_drawImage [of st img "layers st - 1"] by (simp add: list_all_iff)
  have "0 \<le> layers st - 1" by (simp add: layers_def)
  from draw_loop_last [OF this]
  obtain os where os: "draw_loop st img (layers st - 1) = os @ [drawImage img (layer st img 0)]"
    by blast
  have l: "last (ops c') = drawImage img (layer st img 0)" by (simp add: o os)
  have "pixel_at c' q =
          Texel img ((fst q / dpiScale st - layer_x st img 0) / layer_w st img 0)
                    ((snd q / dpiScale st - layer_y st img 0) / layer_h st img 0)"
    if "covers (layer_x st img 0) (layer_y st img 0) (layer_w st img 0) (layer_h st img 0)
          (fst q / dpiScale st, snd q / dpiScale st) \<and>
        1 \<le> img_alpha img
              ((fst q / dpiScale st - layer_x st img 0) / layer_w st img 0,
               (snd q / dpiScale st - layer_y st img 0) / layer_h st img 0)" for q
  proof -
    have "ops c' = (FillRect (bg st) 0 0 (canvas_w st) (canvas_h st) # os) @
                     [drawImage img (layer st img 0)]"
      by (simp add: o os)
    then show ?thesis
      using that draw_frame [OF c']
      by (simp only: pixel_at_def paint_at_snoc) (simp add: layer_tuple [of st img 0] Let_def)
  qed
  with c' f m l show ?thesis by (simp add: layers_clamp)
qed

theorem back_to_front_witness:
  "imgObj (initial_app\<lparr>imgURL := Some ''blob:1'', imgObj := Some photo\<rparr>) = Some photo \<and>
   decoded photo \<and>
   0 < dpiScale (initial_app\<lparr>imgURL := Some ''blob:1'', imgObj := Some photo\<rparr>) \<and>
   covers 546 178.5 630 472.5 (600, 300) \<and>
   1 \<le> img_alpha photo (3 / 35, 9 / 35) \<and>
   (\<exists>c'. draw (initial_app\<lparr>imgURL := Some ''blob:1'', imgObj := Some photo\<rparr>)
            (Some fresh_canvas) = Some c' \<and>
      length (filter is_drawImage (ops c')) = 3 \<and>
      last (ops c') = DrawImage photo 546 178.5 630 472.5 \<and>
      pixel_at c' (600, 300) = Texel photo (3 / 35) (9 / 35))"
proof -
  let ?S = "initial_app\<lparr>imgURL := Some ''blob:1'', imgObj := Some photo\<rparr>"
  let ?u = "(fst (600 :: real, 300 :: real) / dpiScale ?S - layer_x ?S photo 0) / layer_w ?S photo 0"
  let ?v = "(snd (600 :: real, 300 :: real) / dpiScale ?S - layer_y ?S photo 0) / layer_h ?S photo 0"
  have h: "imgObj ?S = Some photo" "0 < dpiScale ?S" and d: "dpiScale ?S = 1"
    and n: "nat (clamp (repeats ?S) 1 6) = 3"
    by (simp_all add: initial_app_def clamp_def)
  note l0 = photo_layers(1) [where u = "Some ''blob:1''" and io = "Some photo"]
  have x: "layer_x ?S photo 0 = 546" "layer_y ?S photo 0 = 178.5"
      "layer_w ?S photo 0 = 630" "layer_h ?S photo 0 = 472.5"
    by (simp_all add: layer_x_def layer_y_def layer_w_def layer_h_def l0)
  have c: "covers 546 178.5 630 472.5 (600, 300)"
    by (simp add: covers_def)
  have a: "1 \<le> img_alpha photo (3 / 35, 9 / 35)"
    by (simp add: photo_def)
  have uv: "?u = 3 / 35" "?v = 9 / 35"
    unfolding x d by simp_all
  obtain c' where c': "draw ?S (Some fresh_canvas) = Some c'"
      "filter is_drawImage (ops c') =
         map (\<lambda>i. drawImage photo (layer ?S photo i)) (rev [0..<nat (clamp (repeats ?S) 1 6)])"
      "last (ops c') = drawImage photo (layer ?S photo 0)"
      "\<forall>q. covers (layer_x ?S photo 0) (layer_y ?S photo 0) (layer_w ?S photo 0)
              (layer_h ?S photo 0) (fst q / dpiScale ?S, snd q / dpiScale ?S) \<and>
            1 \<le> img_alpha photo
                  ((fst q / dpiScale ?S - layer_x ?S photo 0) / layer_w ?S photo 0,
                   (snd q / dpiScale ?S - layer_y ?S photo 0) / layer_h ?S photo 0) \<longrightarrow>
           pixel_at c' q =
             Texel photo ((fst q / dpiScale ?S - layer_x ?S photo 0) / layer_w ?S photo 0)
                         ((snd q / dpiScale ?S - layer_y ?S photo 0) / layer_h ?S photo 0)"
    using back_to_front [OF h(1) decoded_samples(1) h(2), of fresh_canvas] by blast
  have 1: "length (filter is_drawImage (ops c')) = 3"
    by (simp only: c'(2) n length_map length_rev length_upt)
  have 2: "last (ops c') = DrawImage photo 546 178.5 630 472.5"
    by (simp add: c'(3) l0)
  have cv: "covers (layer_x ?S photo 0) (layer_y ?S photo 0) (layer_w ?S photo 0)
          (layer_h ?S photo 0)
          (fst (600 :: real, 300 :: real) / dpiScale ?S, snd (600 :: real, 300 :: real) / dpiScale ?S)"
    unfolding x d using c by simp
  have av: "1 \<le> img_alpha photo (?u, ?v)"
    unfolding uv by (rule a)
  have "covers (layer_x ?S photo 0) (layer_y ?S photo 0) (layer_w ?S photo 0)
          (layer_h ?S photo 0)
          (fst (600 :: real, 300 :: real) / dpiScale ?S, snd (600 :: real, 300 :: real) / dpiScale ?S) \<and>
        1 \<le> img_alpha photo (?u, ?v) \<longrightarrow>
        pixel_at c' (600, 300) = Texel photo ?u ?v"
    using c'(4) by (rule spec)
  then have "pixel_at c' (600, 300) = Texel photo ?u ?v"
    using cv av by blast
  then have 3: "pixel_at c' (600, 300) = Texel photo (3 / 35) (9 / 35)"
    unfolding uv .
  have "draw ?S (Some fresh_canvas) = Some c' \<and>
      length (filter is_drawImage (ops c')) = 3 \<and>
      last (ops c') = DrawImage photo 546 178.5 630 472.5 \<and>
      pixel_at c' (600, 300) = Texel photo (3 / 35) (9 / 35)"
    by (intro conjI) (rule c'(1) 1 2 3)+
  then have e: "\<exists>c'. draw ?S (Some fresh_canvas) = Some c' \<and>
      length (filter is_drawImage (ops c')) = 3 \<and>
      last (ops c') = DrawImage photo 546 178.5 630 472.5 \<and>
      pixel_at c' (600, 300) = Texel photo (3 / 35) (9 / 35)"
    by (rule exI)
  show ?thesis
    by (intro conjI) (rule h decoded_samples(1) c a e)+
qed

section \<open>Image loading\<close>

lemma draw_failed_url:
  "draw (st\<lparr>imgURL := u, imgObj := None\<rparr>) c = draw (st\<lparr>imgObj := None\<rparr>) c"
  by (cases c) (simp_all add: draw_def Let_def canvas_w_def canvas_h_def)

lemma draw_background:
  "\<exists>c'. draw (st\<lparr>imgObj := None\<rparr>) (Some c) = Some c' \<and>
        ops c' = [FillRect (bg st) 0 0 (canvas_w st) (canvas_h st)]"
  by (simp add: draw_def Let_def canvas_w_def canvas_h_def)

lemma onerror_state: "state (img_onerror pg) = (state pg)\<lparr>imgObj := None, imgURL := None\<rparr>"
  by (simp add: img_onerror_def Let_def commit_def)

lemma onerror_canvas:
  "canvasRef (img_onerror pg) =
     (if imgObj (state pg) = None then canvasRef pg
      else draw ((state pg)\<lparr>imgObj := None\<rparr>) (canvasRef pg))"
  by (simp add: img_onerror_def Let_def commit_def deps_def)

lemma onFile_failed:
  assumes "file_image fl = None"
  shows "onFile (Some fl) pg = img_onerror (commit ((state pg)\<lparr>imgURL := Some (file_url fl)\<rparr>) pg)"
  using assms by (simp add: onFile_def Let_def)

lemma failed_state:
  assumes "file_image fl = None"
  shows "state (onFile (Some fl) pg) = (state pg)\<lparr>imgObj := None, imgURL := None\<rparr>"
  by (simp add: onFile_failed [OF assms] onerror_state commit_def)

lemma failed_canvas:
  assumes "file_image fl = None"
  shows "canvasRef (onFile (Some fl) pg) =
           (if imgObj (state pg) = None then canvasRef pg
            else draw ((state pg)\<lparr>imgObj := None\<rparr>) (canvasRef pg))"
  by (simp add: onFile_failed [OF assms] onerror_canvas commit_def deps_def draw_failed_url)

lemma onFile_loaded:
  assumes "file_image fl = Some img"
  shows "onFile (Some fl) pg =
           img_onload img (commit ((state pg)\<lparr>imgURL := Some (file_url fl)\<rparr>) pg)"
  using assms by (simp add: onFile_def Let_def)

lemma initial_frame:
  "bg (initial_app\<lparr>imgURL := u, imgObj := io\<rparr>) = ''#6BFF7A''"
  "canvas_w (initial_app\<lparr>imgURL := u, imgObj := io\<rparr>) = 1200"
  "canvas_h (initial_app\<lparr>imgURL := u, imgObj := io\<rparr>) = 675"
  "dpiScale (initial_app\<lparr>imgURL := u, imgObj := io\<rparr>) = 1"
  "layers (initial_app\<lparr>imgURL := u, imgObj := io\<rparr>) = 3"
  by (simp_all add: canvas_w_def canvas_h_def layers_def initial_app_def)

lemma draw_initial_none:
  "draw (initial_app\<lparr>imgURL := u, imgObj := None\<rparr>) (Some c) =
     Some (c\<lparr>px_width := 1200, px_height := 675, xform := 1,
              ops := [FillRect ''#6BFF7A'' 0 0 1200 675]\<rparr>)"
  by (simp add: draw_def Let_def initial_frame)

lemma draw_initial_photo:
  "draw (initial_app\<lparr>imgURL := u, imgObj := Some photo\<rparr>) (Some c) =
     Some (c\<lparr>px_width := 1200, px_height := 675, xform := 1,
              ops := [FillRect ''#6BFF7A'' 0 0 1200 675,
                      DrawImage photo 438.9 268.275 510.3 382.725,
                      DrawImage photo 495.6 225.75 567 425.25,
                      DrawImage photo 546 178.5 630 472.5]\<rparr>)"
  by (simp add: draw_def Let_def initial_frame draw_loop_2 photo_layers
      photo_layers(2) [unfolded One_nat_def])

lemma mounted_eval: "mounted = \<lparr>state = initial_app, canvasRef = Some backdrop\<rparr>"
  using draw_initial_none [of None fresh_canvas]
  by (simp add: mounted_def initial_app_upd fresh_canvas_def backdrop_def)

lemma loaded_eval:
  "onFile (Some good_upload) mounted =
     \<lparr>state = initial_app\<lparr>imgURL := Some ''blob:1'', imgObj := Some photo\<rparr>,
      canvasRef = Some stacked\<rparr>"
proof -
  let ?u = "initial_app\<lparr>imgURL := Some ''blob:1''\<rparr>"
  have g: "file_image good_upload = Some photo" "file_url good_upload = ''blob:1''"
    by (simp_all add: good_upload_def)
  have m: "state mounted = initial_app" "canvasRef mounted = Some backdrop"
    by (simp_all add: mounted_eval)
  have 1: "commit ((state mounted)\<lparr>imgURL := Some (file_url good_upload)\<rparr>) mounted =
             \<lparr>state = ?u, canvasRef = Some backdrop\<rparr>"
    by (simp add: commit_def m g deps_def)
  have 2: "draw (?u\<lparr>imgObj := Some photo\<rparr>) (Some backdrop) = Some stacked"
    by (simp add: draw_initial_photo backdrop_def stacked_def)
  have 3: "deps (?u\<lparr>imgObj := Some photo\<rparr>) \<noteq> deps ?u"
    by (simp add: deps_def initial_app_def)
  have "img_onload photo \<lparr>state = ?u, canvasRef = Some backdrop\<rparr> =
          \<lparr>state = ?u\<lparr>imgObj := Some photo\<rparr>, canvasRef = Some stacked\<rparr>"
    using 2 3 by (simp add: img_onload_def commit_def)
  then show ?thesis
    by (simp only: onFile_loaded [OF g(1)] 1)
qed

lemma failed_eval:
  "onFile (Some bad_upload) (onFile (Some good_upload) mounted) =
     \<lparr>state = initial_app, canvasRef = Some backdrop\<rparr>"
proof -
  let ?l = "initial_app\<lparr>imgURL := Some ''blob:1'', imgObj := Some photo\<rparr>"
  have b: "file_image bad_upload = None" by (simp add: bad_upload_def)
  have s: "state (onFile (Some bad_upload) (onFile (Some good_upload) mounted)) = initial_app"
    by (simp add: failed_state [OF b] loaded_eval) (simp add: initial_app_def)
  have "?l\<lparr>imgObj := None\<rparr> = initial_app\<lparr>imgURL := Some ''blob:1'', imgObj := None\<rparr>"
    by simp
  then have "draw (?l\<lparr>imgObj := None\<rparr>) (Some stacked) = Some backdrop"
    by (simp only: draw_initial_none) (simp add: stacked_def backdrop_def)
  then have c: "canvasRef (onFile (Some bad_upload) (onFile (Some good_upload) mounted)) =
                  Some backdrop"
    by (simp add: failed_canvas [OF b] loaded_eval)
  show ?thesis
    using s c by (cases "onFile (Some bad_upload) (onFile (Some good_upload) mounted)") simp
qed

text \<open>
  C3, amended. When the chosen file cannot be decoded, \<^verbatim>\<open>onFile\<close> with its error handler
  returns a page whose state differs from the old one only in that \<open>imgObj\<close> and \<open>imgURL\<close>
  are reset to none. If no image was loaded, the canvas is left as it is. If an image was
  loaded, the reset redraws: the canvas becomes what \<^verbatim>\<open>draw\<close> paints with no image, which
  on a mounted canvas is the background fill alone.
\<close>

theorem decode_failure_resets:
  assumes "file_image fl = None"
  shows "state (onFile (Some fl) pg) = (state pg)\<lparr>imgObj := None, imgURL := None\<rparr> \<and>
         (imgObj (state pg) = None \<longrightarrow> canvasRef (onFile (Some fl) pg) = canvasRef pg) \<and>
         (imgObj (state pg) \<noteq> None \<longrightarrow>
            canvasRef (onFile (Some fl) pg) = draw ((state pg)\<lparr>imgObj := None\<rparr>) (canvasRef pg)) \<and>
         (imgObj (state pg) \<noteq> None \<and> canvasRef pg = Some c \<longrightarrow>
            (\<exists>c'. canvasRef (onFile (Some fl) pg) = Some c' \<and>
               ops c' = [FillRect (bg (state pg)) 0 0 (canvas_w (state pg)) (canvas_h (state pg))]))"
proof (intro conjI impI)
  show "state (onFile (Some fl) pg) = (state pg)\<lparr>imgObj := None, imgURL := None\<rparr>"
    by (rule failed_state [OF assms])
next
  assume "imgObj (state pg) = None"
  then show "canvasRef (onFile (Some fl) pg) = canvasRef pg"
    by (simp add: failed_canvas [OF assms])
next
  assume "imgObj (state pg) \<noteq> None"
  then show "canvasRef (onFile (Some fl) pg) = draw ((state pg)\<lparr>imgObj := None\<rparr>) (canvasRef pg)"
    unfolding failed_canvas [OF assms] by (rule if_not_P)
next
  assume a: "imgObj (state pg) \<noteq> None \<and> canvasRef pg = Some c"
  then have "canvasRef (onFile (Some fl) pg) = draw ((state pg)\<lparr>imgObj := None\<rparr>) (Some c)"
    unfolding failed_canvas [OF assms] by auto
  then show "\<exists>c'. canvasRef (onFile (Some fl) pg) = Some c' \<and>
               ops c' = [FillRect (bg (state pg)) 0 0 (canvas_w (state pg)) (canvas_h (state pg))]"
    using draw_background [of "state pg" c] by simp
qed

text \<open>
  C3 as stated fails: after a photo was loaded and drawn, an upload that
  cannot be decoded leaves the canvas repainted with the background alone, not with the
  previous picture, although an image had been loaded before.
\<close>

theorem decode_failure_repaints:
  "file_image bad_upload = None \<and>
   canvasRef (onFile (Some good_upload) mounted) = Some stacked \<and>
   canvasRef (onFile (Some bad_upload) (onFile (Some good_upload) mounted)) = Some backdrop \<and>
   canvasRef (onFile (Some bad_upload) (onFile (Some good_upload) mounted)) \<noteq>
     canvasRef (onFile (Some good_upload) mounted)"
proof -
  have b: "file_image bad_upload = None" by (simp add: bad_upload_def)
  have 1: "canvasRef (onFile (Some good_upload) mounted) = Some stacked"
    by (simp add: loaded_eval)
  have 2: "canvasRef (onFile (Some bad_upload) (onFile (Some good_upload) mounted)) = Some backdrop"
    by (simp add: failed_eval)
  have "Some backdrop \<noteq> Some stacked"
    by (simp add: backdrop_def stacked_def)
  then have 3: "canvasRef (onFile (Some bad_upload) (onFile (Some good_upload) mounted)) \<noteq>
     canvasRef (onFile (Some good_upload) mounted)"
    unfolding 1 2 .
  show ?thesis
    by (intro conjI) (rule b 1 2 3)+
qed

theorem decode_failure_resets_witness:
  "file_image bad_upload = None \<and> imgObj (state mounted) = None \<and>
   canvasRef (onFile (Some bad_upload) mounted) = canvasRef mounted \<and>
   imgObj (state (onFile (Some good_upload) mounted)) \<noteq> None \<and>
   canvasRef (onFile (Some good_upload) mounted) = Some stacked \<and>
   state (onFile (Some bad_upload) (onFile (Some good_upload) mounted)) = initial_app \<and>
   (\<exists>c'. canvasRef (onFile (Some bad_upload) (onFile (Some good_upload) mounted)) = Some c' \<and>
      ops c' = [FillRect ''#6BFF7A'' 0 0 1200 675])"
proof -
  let ?pg = "onFile (Some good_upload) mounted"
  have b: "file_image bad_upload = None" by (simp add: bad_upload_def)
  have m: "imgObj (state mounted) = None"
    by (simp add: mounted_eval initial_app_def)
  have l: "imgObj (state ?pg) \<noteq> None" "canvasRef ?pg = Some stacked"
    by (simp_all add: loaded_eval)
  have v: "bg (state ?pg) = ''#6BFF7A''" "canvas_w (state ?pg) = 1200"
      "canvas_h (state ?pg) = 675"
    by (simp_all add: loaded_eval initial_frame)
  note M = decode_failure_resets [OF b, of mounted]
  note L = decode_failure_resets [OF b, of ?pg stacked]
  have 1: "canvasRef (onFile (Some bad_upload) mounted) = canvasRef mounted"
    using M m by blast
  have "state (onFile (Some bad_upload) ?pg) = (state ?pg)\<lparr>imgObj := None, imgURL := None\<rparr>"
    using L by blast
  then have 2: "state (onFile (Some bad_upload) ?pg) = initial_app"
    by (simp add: loaded_eval) (simp add: initial_app_def)
  have "\<exists>c'. canvasRef (onFile (Some bad_upload) ?pg) = Some c' \<and>
          ops c' = [FillRect (bg (state ?pg)) 0 0 (canvas_w (state ?pg)) (canvas_h (state ?pg))]"
    using L l by blast
  then have 3: "\<exists>c'. canvasRef (onFile (Some bad_upload) ?pg) = Some c' \<and>
          ops c' = [FillRect ''#6BFF7A'' 0 0 1200 675]"
    by (simp only: v)
  show ?thesis
    by (intro conjI) (rule b m l 1 2 3)+
qed

section \<open>Rectangles outside the canvas\<close>

lemma sample_domains:
  "in_domain wide_config" "in_domain padded_config" "in_domain spilling_config"
  by (simp_all add: in_domain_def wide_config_def padded_config_def spilling_config_def
      initial_app_def SIZES_def PALETTE_def)

lemma wide_frame:
  "imgObj wide_config = Some panorama" "bg wide_config = ''#6BFF7A''"
  "canvas_w wide_config = 1200" "canvas_h wide_config = 675" "dpiScale wide_config = 1"
  "layers wide_config = 3"
  by (simp_all add: wide_config_def canvas_w_def canvas_h_def layers_def initial_app_def)

lemma wide_geometry:
  "drawW wide_config panorama = 3240" "drawH wide_config panorama = 810"
  "startX wide_config panorama = - 2064" "startY wide_config panorama = - 159"
  by (simp_all add: geom_defs wide_config_def initial_app_def panorama_def str_includes_def Let_def)

lemma wide_layers:
  "layer wide_config panorama 0 = (- 2064, - 159, 3240, 810)"
  "layer wide_config panorama (Suc 0) = (- 2323.2, - 78, 2916, 729)"
  "layer wide_config panorama 2 = (- 2614.8, - 5.1, 2624.4, 656.1)"
  by (simp_all add: layer_def wide_geometry Let_def layer_scale_def scaleStep_def gapPx_def
      yStepPx_def dir_def power2_eq_square) (simp_all add: wide_config_def initial_app_def)

lemma wide_draw:
  "draw wide_config (Some fresh_canvas) =
     Some \<lparr>px_width = 1200, px_height = 675, xform = 1,
        ops = [FillRect ''#6BFF7A'' 0 0 1200 675,
               DrawImage panorama (- 2614.8) (- 5.1) 2624.4 656.1,
               DrawImage panorama (- 2323.2) (- 78) 2916 729,
               DrawImage panorama (- 2064) (- 159) 3240 810]\<rparr>"
  by (simp add: draw_with_image [OF wide_frame(1)] wide_frame draw_loop_2 wide_layers
      fresh_canvas_def)

lemma padded_frame:
  "imgObj padded_config = Some portrait" "bg padded_config = ''#6BFF7A''"
  "canvas_w padded_config = 1200" "canvas_h padded_config = 675" "dpiScale padded_config = 1"
  "layers padded_config = 1"
  by (simp_all add: padded_config_def canvas_w_def canvas_h_def layers_def initial_app_def)

lemma padded_layer: "layer padded_config portrait 0 = (527.5, - 155, 472.5, 630)"
  by (simp add: layer_zero)
     (simp add: geom_defs padded_config_def initial_app_def portrait_def str_includes_def Let_def)

lemma padded_draw:
  "draw padded_config (Some fresh_canvas) =
     Some \<lparr>px_width = 1200, px_height = 675, xform = 1,
        ops = [FillRect ''#6BFF7A'' 0 0 1200 675, DrawImage portrait 527.5 (- 155) 472.5 630]\<rparr>"
  by (simp add: draw_with_image [OF padded_frame(1)] padded_frame draw_loop_0 padded_layer
      fresh_canvas_def)

lemma spilling_frame:
  "imgObj spilling_config = Some panorama" "bg spilling_config = ''#6BFF7A''"
  "canvas_w spilling_config = 1200" "canvas_h spilling_config = 675"
  "dpiScale spilling_config = 1" "layers spilling_config = 1"
  by (simp_all add: spilling_config_def canvas_w_def canvas_h_def layers_def initial_app_def)

lemma spilling_layer: "layer spilling_config panorama 0 = (24, 24, 3240, 810)"
  by (simp add: layer_zero)
     (simp add: geom_defs spilling_config_def initial_app_def panorama_def str_includes_def Let_def)

lemma spilling_draw:
  "draw spilling_config (Some fresh_canvas) =
     Some \<lparr>px_width = 1200, px_height = 675, xform = 1,
        ops = [FillRect ''#6BFF7A'' 0 0 1200 675, DrawImage panorama 24 24 3240 810]\<rparr>"
  by (simp add: draw_with_image [OF spilling_frame(1)] spilling_frame draw_loop_0 spilling_layer
      fresh_canvas_def)

text \<open>
  C10. Three configurations within the documented ranges whose rectangles leave the
  canvas, and are handed to \<^verbatim>\<open>drawImage\<close> as computed: base scale 120 with a panorama at
  the bottom-right anchor (negative x and y on every layer), padding 200 with a portrait
  at the bottom-right anchor (negative y), and base scale 120 with a panorama at the
  top-left anchor (the rectangle ends beyond the canvas width and height).
\<close>

theorem layers_not_clipped:
  "in_domain wide_config \<and>
   draw wide_config (Some fresh_canvas) =
     Some \<lparr>px_width = 1200, px_height = 675, xform = 1,
        ops = [FillRect ''#6BFF7A'' 0 0 1200 675,
               DrawImage panorama (- 2614.8) (- 5.1) 2624.4 656.1,
               DrawImage panorama (- 2323.2) (- 78) 2916 729,
               DrawImage panorama (- 2064) (- 159) 3240 810]\<rparr> \<and>
   in_domain padded_config \<and>
   draw padded_config (Some fresh_canvas) =
     Some \<lparr>px_width = 1200, px_height = 675, xform = 1,
        ops = [FillRect ''#6BFF7A'' 0 0 1200 675, DrawImage portrait 527.5 (- 155) 472.5 630]\<rparr> \<and>
   in_domain spilling_config \<and>
   draw spilling_config (Some fresh_canvas) =
     Some \<lparr>px_width = 1200, px_height = 675, xform = 1,
        ops = [FillRect ''#6BFF7A'' 0 0 1200 675, DrawImage panorama 24 24 3240 810]\<rparr> \<and>
   canvas_w spilling_config < 24 + 3240 \<and> canvas_h spilling_config < 24 + 810"
proof -
  have e: "canvas_w spilling_config < 24 + 3240" "canvas_h spilling_config < 24 + 810"
    by (simp_all add: spilling_frame)
  show ?thesis
    by (intro conjI) (rule sample_domains wide_draw padded_draw spilling_draw e)+
qed

end
